theory Spec2Isabelle
  imports Main
begin

section \<open>Data model of the example programs\<close>

text \<open>
  The repository holds two small Go programs and the prose that explains structs.
  \<^verbatim>\<open>orders/main.go\<close> reads a CSV file with \<^verbatim>\<open>encoding/csv\<close> and turns its rows into
  \<^verbatim>\<open>song\<close> values with \<^verbatim>\<open>songEntries\<close>; \<^verbatim>\<open>astros/main.go\<close> decodes a JSON file into
  \<^verbatim>\<open>astros\<close> with \<^verbatim>\<open>encoding/json\<close>. The structs are records, a run-time panic and a
  fatal log call are values of the result type.
\<close>

text \<open>\<^verbatim>\<open>type song struct { title, artist, genre string }\<close>\<close>

record song =
  title :: string
  artist :: string
  genre :: string

text \<open>\<^verbatim>\<open>type astro struct { Craft, Name string }\<close> and \<^verbatim>\<open>type astros struct { People []astro }\<close>\<close>

record astro =
  Craft :: string
  Name :: string

record astros =
  People :: "astro list"

text \<open>
  The only run-time panic the programs can raise themselves: an index expression
  \<^verbatim>\<open>row[i]\<close> with \<^verbatim>\<open>i\<close> not below \<^verbatim>\<open>len(row)\<close>. Go reports the index and the length.
  \<^verbatim>\<open>MemFault\<close> is used by the store model further down only, for a store that Go's
  type system excludes.
\<close>

datatype error = IndexOutOfRange nat nat | MemFault

section \<open>\<^verbatim>\<open>songEntries\<close> on values\<close>

text \<open>The index expression \<^verbatim>\<open>row[i]\<close> on a slice of strings.\<close>

definition at_index :: "string list \<Rightarrow> nat \<Rightarrow> error + string" where
  "at_index row i = (if i < length row then Inr (row ! i) else Inl (IndexOutOfRange i (length row)))"

text \<open>
  \<^verbatim>\<open>
  func songEntries(data [][]string) []song {
      var songs []song
      for _, row := range data {
          title := row[0]
          artist := row[1]
          genre := row[2]
          songs = append(songs, song{title, artist, genre})
      }
      return songs
  }
  \<close>
  The loop is a recursion over the rows still to visit, with \<^verbatim>\<open>songs\<close> as the
  accumulator; the three index expressions are evaluated in the order of the source.
\<close>

fun songEntries_loop :: "string list list \<Rightarrow> song list \<Rightarrow> error + song list" where
  "songEntries_loop [] songs = Inr songs"
| "songEntries_loop (row # rest) songs =
     (case at_index row 0 of
        Inl e \<Rightarrow> Inl e
      | Inr t \<Rightarrow>
     (case at_index row 1 of
        Inl e \<Rightarrow> Inl e
      | Inr a \<Rightarrow>
     (case at_index row 2 of
        Inl e \<Rightarrow> Inl e
      | Inr g \<Rightarrow> songEntries_loop rest (songs @ [\<lparr>title = t, artist = a, genre = g\<rparr>]))))"

definition songEntries :: "string list list \<Rightarrow> error + song list" where
  "songEntries data = songEntries_loop data []"

section \<open>The two \<^verbatim>\<open>main\<close> functions\<close>

text \<open>
  How a run ends: normally, by \<^verbatim>\<open>log.Fatal\<close>/\<^verbatim>\<open>log.Fatalf\<close> (the message is logged and
  the process exits with status 1), or by a panic. \<^verbatim>\<open>stdout\<close> holds the lines printed
  by \<^verbatim>\<open>fmt.Printf\<close> before that.
\<close>

datatype status = Exited | Fatal string | Panicked error

record run =
  stdout :: "string list"
  status :: status

subsection \<open>\<^verbatim>\<open>orders/main.go\<close>\<close>

text \<open>
  \<^verbatim>\<open>os.Open\<close> and \<^verbatim>\<open>encoding/csv\<close> belong to Go's standard library, not to the
  repository. The error of \<^verbatim>\<open>os.Open\<close> is a parameter (\<^verbatim>\<open>None\<close> is \<^verbatim>\<open>nil\<close>). The file is
  taken as the sequence of records the CSV reader meets in it: a record is either split
  into its fields, or it is malformed (a stray quote, say) and the reader has a parse
  error for it, whose text the record carries.
\<close>

datatype csv_record = Fields "string list" | Malformed string

text \<open>
  \<^verbatim>\<open>csv.NewReader(f).ReadAll()\<close>, after the documentation of \<^verbatim>\<open>encoding/csv\<close>: it reads
  records up to the end of the file and returns them with a \<^verbatim>\<open>nil\<close> error; at the first
  record with an error it returns \<^verbatim>\<open>nil\<close> records and that error. A new reader has
  \<^verbatim>\<open>FieldsPerRecord = 0\<close>: the number of fields of the first record is stored there, and
  a later record with another number of fields is an error (\<^verbatim>\<open>ErrFieldCount\<close>). The text
  of that error names the line of the record, which a sequence of records does not
  hold: \<^verbatim>\<open>txt\<close> gives it, by the position of the record. \<^verbatim>\<open>expected\<close> is \<^verbatim>\<open>FieldsPerRecord\<close>.
\<close>

fun ReadAll_loop ::
  "(nat \<Rightarrow> string) \<Rightarrow> csv_record list \<Rightarrow> nat \<Rightarrow> nat \<Rightarrow> string list list \<Rightarrow> string list list \<times> string option" where
  "ReadAll_loop txt [] expected i records = (records, None)"
| "ReadAll_loop txt (Malformed msg # rest) expected i records = ([], Some msg)"
| "ReadAll_loop txt (Fields fs # rest) expected i records =
     (if 0 < expected \<and> length fs \<noteq> expected then ([], Some (txt i))
      else ReadAll_loop txt rest (if 0 < expected then expected else length fs) (i + 1) (records @ [fs]))"

definition ReadAll :: "(nat \<Rightarrow> string) \<Rightarrow> csv_record list \<Rightarrow> string list list \<times> string option" where
  "ReadAll txt s = ReadAll_loop txt s 0 0 []"

record csv_world =
  csv_open_err :: "string option"
  csv_stream :: "csv_record list"
  csv_wrong_fields :: "nat \<Rightarrow> string"

text \<open>\<^verbatim>\<open>fmt.Printf("%+v\n", song)\<close>: field names and values, separated by spaces, in braces.\<close>

definition show_song :: "song \<Rightarrow> string" where
  "show_song s = ''{title:'' @ title s @ '' artist:'' @ artist s @ '' genre:'' @ genre s @ ''}''"

text \<open>
  \<^verbatim>\<open>
  f, err := os.Open("orders/songs.csv")
  if err != nil { log.Fatalf("unable to open a file: %v", err) }
  defer f.Close()
  orders, err := csv.NewReader(f).ReadAll()
  if err != nil { log.Fatalf("failed to parse a CSV file: %v", err) }
  songs := songEntries(orders)
  for _, song := range songs { fmt.Printf("%+v\n", song) }
  \<close>
\<close>

definition main_orders :: "csv_world \<Rightarrow> run" where
  "main_orders w =
     (case csv_open_err w of
        Some err \<Rightarrow> \<lparr>stdout = [], status = Fatal (''unable to open a file: '' @ err)\<rparr>
      | None \<Rightarrow>
     (case ReadAll (csv_wrong_fields w) (csv_stream w) of
        (orders, Some err) \<Rightarrow> \<lparr>stdout = [], status = Fatal (''failed to parse a CSV file: '' @ err)\<rparr>
      | (orders, None) \<Rightarrow>
     (case songEntries orders of
        Inl e \<Rightarrow> \<lparr>stdout = [], status = Panicked e\<rparr>
      | Inr songs \<Rightarrow> \<lparr>stdout = map show_song songs, status = Exited\<rparr>)))"

subsection \<open>\<^verbatim>\<open>astros/main.go\<close>\<close>

text \<open>
  \<^verbatim>\<open>encoding/json\<close> belongs to Go's standard library as well. A JSON value is null, a
  boolean, a number (its literal), a string, an array or an object (its members in the
  order of the text). The file is taken as a sequence of chunks: a complete JSON value,
  or bytes that are no JSON value, with the text of the decoder's syntax error for them.
\<close>

datatype json =
  JNull | JBool bool | JNumber string | JString string | JArray "json list" | JObject "(string \<times> json) list"

datatype chunk = Value json | Garbage string

text \<open>
  Storing a JSON value into a variable of the struct type \<^verbatim>\<open>astros\<close>, after the
  documentation of \<^verbatim>\<open>json.Unmarshal\<close>: null has no effect and is no error; an array, a
  string, a number or a boolean cannot be stored in a struct, the variable is left as it
  is and an \<^verbatim>\<open>UnmarshalTypeError\<close> is returned. How the members of an object are matched
  with the fields of the struct and stored there is left open: \<^verbatim>\<open>obj\<close> is a parameter.
\<close>

definition unmarshal_type_error :: "string \<Rightarrow> string" where
  "unmarshal_type_error kind = ''json: cannot unmarshal '' @ kind @ '' into Go value of type main.astros''"

definition unmarshal_astros ::
  "((string \<times> json) list \<Rightarrow> astros \<Rightarrow> astros \<times> string option) \<Rightarrow> json \<Rightarrow> astros \<Rightarrow> astros \<times> string option" where
  "unmarshal_astros obj j v =
     (case j of
        JNull \<Rightarrow> (v, None)
      | JBool b \<Rightarrow> (v, Some (unmarshal_type_error ''bool''))
      | JNumber n \<Rightarrow> (v, Some (unmarshal_type_error ''number''))
      | JString s \<Rightarrow> (v, Some (unmarshal_type_error ''string''))
      | JArray xs \<Rightarrow> (v, Some (unmarshal_type_error ''array''))
      | JObject members \<Rightarrow> obj members v)"

text \<open>
  \<^verbatim>\<open>Decode\<close>, after the documentation of \<^verbatim>\<open>json.Decoder\<close>: it reads the next JSON value
  from its input and stores it in the variable. At the end of the input the error is
  \<^verbatim>\<open>io.EOF\<close>; a value with a syntax error is not stored. What follows the value is not
  read by this call.
\<close>

definition Decode ::
  "((string \<times> json) list \<Rightarrow> astros \<Rightarrow> astros \<times> string option) \<Rightarrow> chunk list \<Rightarrow> astros \<Rightarrow> astros \<times> string option" where
  "Decode obj s v =
     (case s of
        [] \<Rightarrow> (v, Some ''EOF'')
      | Garbage msg # rest \<Rightarrow> (v, Some msg)
      | Value j # rest \<Rightarrow> unmarshal_astros obj j v)"

record json_world =
  json_open_err :: "string option"
  json_stream :: "chunk list"
  json_object :: "(string \<times> json) list \<Rightarrow> astros \<Rightarrow> astros \<times> string option"

text \<open>\<^verbatim>\<open>%+v\<close> of an \<^verbatim>\<open>astro\<close>, of a slice (elements separated by spaces, in brackets) and of \<^verbatim>\<open>astros\<close>.\<close>

definition show_astro :: "astro \<Rightarrow> string" where
  "show_astro a = ''{Craft:'' @ Craft a @ '' Name:'' @ Name a @ ''}''"

fun join_spaces :: "string list \<Rightarrow> string" where
  "join_spaces [] = []"
| "join_spaces [s] = s"
| "join_spaces (s # t # rest) = s @ '' '' @ join_spaces (t # rest)"

definition show_astros :: "astros \<Rightarrow> string" where
  "show_astros x = ''{People:['' @ join_spaces (map show_astro (People x)) @ '']}''"

text \<open>
  \<^verbatim>\<open>
  f, err := os.Open("astros/astros.json")
  if err != nil { log.Fatalf("unable to open a file: %v", err) }
  defer f.Close()
  astronauts := astros{}
  if err := json.NewDecoder(bufio.NewReader(f)).Decode(&astronauts); err != nil { log.Fatal(err) }
  fmt.Printf("%+v\n", astronauts)
  \<close>
  \<^verbatim>\<open>Decode\<close> is called once, and nothing looks at what is left of the input after it.
\<close>

definition main_astros :: "json_world \<Rightarrow> run" where
  "main_astros w =
     (case json_open_err w of
        Some err \<Rightarrow> \<lparr>stdout = [], status = Fatal (''unable to open a file: '' @ err)\<rparr>
      | None \<Rightarrow>
     (case Decode (json_object w) (json_stream w) \<lparr>People = []\<rparr> of
        (astronauts, Some err) \<Rightarrow> \<lparr>stdout = [], status = Fatal err\<rparr>
      | (astronauts, None) \<Rightarrow> \<lparr>stdout = [show_astros astronauts], status = Exited\<rparr>))"

section \<open>\<^verbatim>\<open>songEntries\<close> on a store\<close>

text \<open>
  A Go slice is a header (pointer into a backing array, length, capacity) that is passed
  by value, while the backing array is shared. To say what a call does to its argument,
  the backing arrays live in a store: a list of arrays, an address being a position in
  it. A header names the array, the offset of its first element there, its length and
  its capacity. The \<^verbatim>\<open>nil\<close> slice has length and capacity 0.
\<close>

record slice =
  sl_base :: nat
  sl_off :: nat
  sl_len :: nat
  sl_cap :: nat

datatype cell = StrArr "string list" | SliceArr "slice list" | SongArr "song list"

type_synonym store = "cell list"

definition nil_slice :: slice where
  "nil_slice = \<lparr>sl_base = 0, sl_off = 0, sl_len = 0, sl_cap = 0\<rparr>"

definition zero_song :: song where
  "zero_song = \<lparr>title = [], artist = [], genre = []\<rparr>"

text \<open>The array at an address, when the address is allocated and holds that kind of array.\<close>

definition str_array :: "store \<Rightarrow> nat \<Rightarrow> string list option" where
  "str_array h a = (if a < length h then (case h ! a of StrArr xs \<Rightarrow> Some xs | _ \<Rightarrow> None) else None)"

definition slice_array :: "store \<Rightarrow> nat \<Rightarrow> slice list option" where
  "slice_array h a = (if a < length h then (case h ! a of SliceArr xs \<Rightarrow> Some xs | _ \<Rightarrow> None) else None)"

definition song_array :: "store \<Rightarrow> nat \<Rightarrow> song list option" where
  "song_array h a = (if a < length h then (case h ! a of SongArr xs \<Rightarrow> Some xs | _ \<Rightarrow> None) else None)"

text \<open>
  \<^verbatim>\<open>data[i]\<close> as the \<^verbatim>\<open>range\<close> loop reads it (the loop keeps \<^verbatim>\<open>i\<close> below \<^verbatim>\<open>len(data)\<close>),
  and \<^verbatim>\<open>row[i]\<close> with its bounds check. A header that points outside its array cannot
  arise in Go; the model answers \<^verbatim>\<open>MemFault\<close> there.
\<close>

definition load_row :: "store \<Rightarrow> slice \<Rightarrow> nat \<Rightarrow> error + slice" where
  "load_row h d i =
     (case slice_array h (sl_base d) of
        None \<Rightarrow> Inl MemFault
      | Some rs \<Rightarrow> if sl_off d + i < length rs then Inr (rs ! (sl_off d + i)) else Inl MemFault)"

definition load_str :: "store \<Rightarrow> slice \<Rightarrow> nat \<Rightarrow> error + string" where
  "load_str h r i =
     (if i < sl_len r then
        (case str_array h (sl_base r) of
           None \<Rightarrow> Inl MemFault
         | Some xs \<Rightarrow> if sl_off r + i < length xs then Inr (xs ! (sl_off r + i)) else Inl MemFault)
      else Inl (IndexOutOfRange i (sl_len r)))"

text \<open>
  \<^verbatim>\<open>append(songs, v)\<close>. With room left (\<^verbatim>\<open>len < cap\<close>) the element is written into the
  backing array in place. Otherwise a new array is allocated at the end of the store,
  the \<^verbatim>\<open>len\<close> old elements are copied and the rest is zeroed. How much the runtime grows
  the capacity is its own policy: \<^verbatim>\<open>grow\<close> is a parameter, and the new capacity is never
  less than the length needed. As for the loads, a header that does not fit its array
  is answered with \<^verbatim>\<open>MemFault\<close> and the store is left as it is.
\<close>

definition append_song :: "(nat \<Rightarrow> nat) \<Rightarrow> store \<Rightarrow> slice \<Rightarrow> song \<Rightarrow> store \<times> (error + slice)" where
  "append_song grow h s v =
     (if sl_len s < sl_cap s then
        (case song_array h (sl_base s) of
           None \<Rightarrow> (h, Inl MemFault)
         | Some xs \<Rightarrow>
             if sl_off s + sl_len s < length xs
             then (h[sl_base s := SongArr (xs[sl_off s + sl_len s := v])], Inr (s\<lparr>sl_len := sl_len s + 1\<rparr>))
             else (h, Inl MemFault))
      else
        (case (if sl_len s = 0 then Some [] else song_array h (sl_base s)) of
           None \<Rightarrow> (h, Inl MemFault)
         | Some xs \<Rightarrow>
             let n = max (sl_len s + 1) (grow (sl_cap s));
                 old = take (sl_len s) (drop (sl_off s) xs)
             in if length old = sl_len s
                then (h @ [SongArr (old @ [v] @ replicate (n - sl_len s - 1) zero_song)],
                      Inr \<lparr>sl_base = length h, sl_off = 0, sl_len = sl_len s + 1, sl_cap = n\<rparr>)
                else (h, Inl MemFault)))"

text \<open>
  The loop of \<^verbatim>\<open>songEntries\<close> over the indices \<^verbatim>\<open>0 .. len(data) - 1\<close>, threading the store,
  and the function itself, which starts from \<^verbatim>\<open>var songs []song\<close> (the \<^verbatim>\<open>nil\<close> slice).
\<close>

fun songEntries_iter :: "(nat \<Rightarrow> nat) \<Rightarrow> slice \<Rightarrow> nat list \<Rightarrow> store \<Rightarrow> slice \<Rightarrow> store \<times> (error + slice)" where
  "songEntries_iter grow d [] h songs = (h, Inr songs)"
| "songEntries_iter grow d (i # rest) h songs =
     (case load_row h d i of
        Inl e \<Rightarrow> (h, Inl e)
      | Inr row \<Rightarrow>
     (case load_str h row 0 of
        Inl e \<Rightarrow> (h, Inl e)
      | Inr t \<Rightarrow>
     (case load_str h row 1 of
        Inl e \<Rightarrow> (h, Inl e)
      | Inr a \<Rightarrow>
     (case load_str h row 2 of
        Inl e \<Rightarrow> (h, Inl e)
      | Inr g \<Rightarrow>
     (case append_song grow h songs \<lparr>title = t, artist = a, genre = g\<rparr> of
        (h', Inl e) \<Rightarrow> (h', Inl e)
      | (h', Inr songs') \<Rightarrow> songEntries_iter grow d rest h' songs')))))"

definition songEntries_store :: "(nat \<Rightarrow> nat) \<Rightarrow> store \<Rightarrow> slice \<Rightarrow> store \<times> (error + slice)" where
  "songEntries_store grow h data = songEntries_iter grow data [0..<sl_len data] h nil_slice"

text \<open>The value a header denotes in a store: a \<^verbatim>\<open>[]string\<close>, a \<^verbatim>\<open>[][]string\<close>, a \<^verbatim>\<open>[]song\<close>.\<close>

definition strs_of :: "store \<Rightarrow> slice \<Rightarrow> string list option" where
  "strs_of h r =
     (if sl_len r = 0 then Some []
      else (case str_array h (sl_base r) of
              None \<Rightarrow> None
            | Some xs \<Rightarrow> if sl_off r + sl_len r \<le> length xs
                         then Some (take (sl_len r) (drop (sl_off r) xs)) else None))"

fun all_some :: "'a option list \<Rightarrow> 'a list option" where
  "all_some [] = Some []"
| "all_some (None # xs) = None"
| "all_some (Some x # xs) = (case all_some xs of None \<Rightarrow> None | Some ys \<Rightarrow> Some (x # ys))"

definition rows_of :: "store \<Rightarrow> slice \<Rightarrow> string list list option" where
  "rows_of h d =
     (if sl_len d = 0 then Some []
      else (case slice_array h (sl_base d) of
              None \<Rightarrow> None
            | Some rs \<Rightarrow> if sl_off d + sl_len d \<le> length rs
                         then all_some (map (strs_of h) (take (sl_len d) (drop (sl_off d) rs))) else None))"

definition songs_of :: "store \<Rightarrow> slice \<Rightarrow> song list option" where
  "songs_of h s =
     (if sl_len s = 0 then Some []
      else (case song_array h (sl_base s) of
              None \<Rightarrow> None
            | Some xs \<Rightarrow> if sl_off s + sl_len s \<le> length xs
                         then Some (take (sl_len s) (drop (sl_off s) xs)) else None))"

text \<open>
  What holds of the local variable \<^verbatim>\<open>songs\<close> between two iterations, \<^verbatim>\<open>n\<close> being the size
  of the store when \<^verbatim>\<open>songEntries\<close> was called and \<^verbatim>\<open>acc\<close> the songs appended so far:
  \<^verbatim>\<open>songs\<close> is \<^verbatim>\<open>nil\<close>, or its backing array was allocated during the call and holds \<^verbatim>\<open>acc\<close>.
\<close>

definition songs_inv :: "nat \<Rightarrow> store \<Rightarrow> slice \<Rightarrow> song list \<Rightarrow> bool" where
  "songs_inv n h s acc =
     (if sl_cap s = 0 then sl_len s = 0 \<and> acc = []
      else n \<le> sl_base s \<and> sl_len s \<le> sl_cap s \<and>
           (case song_array h (sl_base s) of
              None \<Rightarrow> False
            | Some xs \<Rightarrow> sl_off s + sl_cap s \<le> length xs \<and> take (sl_len s) (drop (sl_off s) xs) = acc))"

text \<open>
  A run on the store agrees with a result on values: the same panic, or a header that
  denotes the same songs in the final store.
\<close>

definition result_matches :: "error + song list \<Rightarrow> store \<times> (error + slice) \<Rightarrow> bool" where
  "result_matches v r =
     (case v of
        Inl e \<Rightarrow> snd r = Inl e
      | Inr out \<Rightarrow> (case snd r of Inl e \<Rightarrow> False | Inr s \<Rightarrow> songs_of (fst r) s = Some out))"

section \<open>Facts about \<^verbatim>\<open>songEntries\<close> on values\<close>

lemma at_index_ok: "i < length row \<Longrightarrow> at_index row i = Inr (row ! i)"
  by (simp add: at_index_def)

lemma songEntries_loop_step_ok:
  "3 \<le> length row \<Longrightarrow>
   songEntries_loop (row # rest) songs =
   songEntries_loop rest (songs @ [\<lparr>title = row ! 0, artist = row ! 1, genre = row ! 2\<rparr>])"
proof -
  assume "3 \<le> length row"
  then have "0 < length row" "1 < length row" "2 < length row" by linarith+
  then have "at_index row 0 = Inr (row ! 0)" "at_index row 1 = Inr (row ! 1)"
    "at_index row 2 = Inr (row ! 2)"
    by (simp_all only: at_index_ok)
  then show ?thesis by simp
qed

text \<open>
  A row of 0, 1 or 2 fields stops the loop at \<^verbatim>\<open>row[0]\<close>, \<^verbatim>\<open>row[1]\<close> or \<^verbatim>\<open>row[2]\<close>: the
  failing index is the length of the row.
\<close>

lemma songEntries_loop_step_fail:
  "length row < 3 \<Longrightarrow>
   songEntries_loop (row # rest) songs = Inl (IndexOutOfRange (length row) (length row))"
proof -
  assume "length row < 3"
  then consider "length row = 0" | "length row = 1" | "length row = 2" by linarith
  then show ?thesis
    by cases (simp_all add: at_index_def)
qed

text \<open>The loop, in closed form: the first row shorter than 3 decides.\<close>

lemma songEntries_loop_find:
  "songEntries_loop data songs =
     (case find (\<lambda>row. length row < 3) data of
        None \<Rightarrow> Inr (songs @ map (\<lambda>row. \<lparr>title = row ! 0, artist = row ! 1, genre = row ! 2\<rparr>) data)
      | Some row \<Rightarrow> Inl (IndexOutOfRange (length row) (length row)))"
proof (induction data arbitrary: songs)
  case Nil
  show ?case by simp
next
  case (Cons row rest)
  show ?case
  proof (cases "length row < 3")
    case True
    then show ?thesis
      by (simp add: songEntries_loop_step_fail del: songEntries_loop.simps split: option.splits)
  next
    case False
    then have "3 \<le> length row" by simp
    then show ?thesis using False Cons.IH
      by (simp add: songEntries_loop_step_ok del: songEntries_loop.simps split: option.splits)
  qed
qed

lemma songEntries_Inr_length: "songEntries data = Inr songs \<Longrightarrow> length songs = length data"
  by (auto simp: songEntries_def songEntries_loop_find split: option.splits)

lemma songEntries_short_Inl:
  "row \<in> set data \<Longrightarrow> length row < 3 \<Longrightarrow> \<exists>n. songEntries data = Inl (IndexOutOfRange n n)"
  by (auto simp: songEntries_def songEntries_loop_find find_None_iff split: option.splits)

section \<open>Facts about the two \<^verbatim>\<open>main\<close> functions\<close>

text \<open>
  \<^verbatim>\<open>ReadAll\<close>: a malformed record anywhere, or a record whose number of fields differs
  from the one stored, is an error; without error, every record of the file is returned.
\<close>

lemma ReadAll_loop_Malformed:
  "Malformed m \<in> set s \<Longrightarrow> \<exists>msg. ReadAll_loop txt s expected i records = ([], Some msg)"
proof (induction s arbitrary: expected i records)
  case Nil
  then show ?case by simp
next
  case (Cons c s)
  show ?case
  proof (cases c)
    case (Malformed msg)
    then show ?thesis by simp
  next
    case (Fields fs)
    with Cons.prems have "Malformed m \<in> set s" by simp
    from Cons.IH [OF this] Fields show ?thesis by simp
  qed
qed

lemma ReadAll_loop_wrong_count:
  "0 < expected \<Longrightarrow> Fields r \<in> set s \<Longrightarrow> length r \<noteq> expected \<Longrightarrow>
   \<exists>msg. ReadAll_loop txt s expected i records = ([], Some msg)"
proof (induction s arbitrary: i records)
  case Nil
  then show ?case by simp
next
  case (Cons c s)
  show ?case
  proof (cases c)
    case (Malformed msg)
    then show ?thesis by simp
  next
    case (Fields fs)
    show ?thesis
    proof (cases "length fs = expected")
      case True
      with Cons.prems Fields have "Fields r \<in> set s" by auto
      from Cons.IH [OF Cons.prems(1) this Cons.prems(3)] Fields True Cons.prems(1)
      show ?thesis by simp
    next
      case False
      with Fields Cons.prems(1) show ?thesis by simp
    qed
  qed
qed

lemma ReadAll_loop_ragged:
  "Fields r1 \<in> set s \<Longrightarrow> Fields r2 \<in> set s \<Longrightarrow> 0 < length r1 \<Longrightarrow> 0 < length r2 \<Longrightarrow>
   length r1 \<noteq> length r2 \<Longrightarrow> expected = 0 \<Longrightarrow>
   \<exists>msg. ReadAll_loop txt s expected i records = ([], Some msg)"
proof (induction s arbitrary: i records)
  case Nil
  then show ?case by simp
next
  case (Cons c s)
  show ?case
  proof (cases c)
    case (Malformed msg)
    then show ?thesis by simp
  next
    case (Fields fs)
    show ?thesis
    proof (cases "length fs = 0")
      case True
      with Cons.prems Fields have "Fields r1 \<in> set s" "Fields r2 \<in> set s" by auto
      from Cons.IH [OF this Cons.prems(3-6)] Fields True Cons.prems(6)
      show ?thesis by simp
    next
      case False
      then have pos: "0 < length fs" by simp
      from Cons.prems(5) consider "length r1 \<noteq> length fs" | "length r2 \<noteq> length fs" by fastforce
      then obtain r where "Fields r \<in> set (c # s)" and ne: "length r \<noteq> length fs"
        using Cons.prems(1,2) by cases blast+
      with Fields have "Fields r \<in> set s" by auto
      from ReadAll_loop_wrong_count [OF pos this ne] Fields Cons.prems(6)
      show ?thesis by simp
    qed
  qed
qed

lemma ReadAll_loop_length:
  "ReadAll_loop txt s expected i records = (orders, None) \<Longrightarrow> length orders = length records + length s"
proof (induction s arbitrary: expected i records)
  case Nil
  then show ?case by simp
next
  case (Cons c s)
  show ?case
  proof (cases c)
    case (Malformed msg)
    with Cons.prems show ?thesis by simp
  next
    case (Fields fs)
    with Cons.prems have "ReadAll_loop txt s (if 0 < expected then expected else length fs) (i + 1) (records @ [fs]) = (orders, None)"
      by (simp split: if_splits)
    from Cons.IH [OF this] show ?thesis by simp
  qed
qed

lemma ReadAll_loop_uniform:
  "\<forall>r\<in>set rows. length r = k \<Longrightarrow> expected = 0 \<or> expected = k \<Longrightarrow>
   ReadAll_loop txt (map Fields rows) expected i records = (records @ rows, None)"
proof (induction rows arbitrary: expected i records)
  case Nil
  then show ?case by simp
next
  case (Cons r rows)
  then have len: "length r = k" and rest: "\<forall>r\<in>set rows. length r = k" by simp_all
  have "(if 0 < expected then expected else length r) = 0 \<or> (if 0 < expected then expected else length r) = k"
    using Cons.prems(2) len by auto
  from Cons.IH [OF rest this] Cons.prems(2) len show ?case by auto
qed

text \<open>What \<^verbatim>\<open>main\<close> of \<^verbatim>\<open>orders/main.go\<close> does on the files of each kind.\<close>

lemma main_orders_Malformed:
  "csv_open_err w = None \<Longrightarrow> Malformed m \<in> set (csv_stream w) \<Longrightarrow>
   \<exists>msg. main_orders w = \<lparr>stdout = [], status = Fatal (''failed to parse a CSV file: '' @ msg)\<rparr>"
  using ReadAll_loop_Malformed [of m "csv_stream w" "csv_wrong_fields w" 0 0 "[]"]
  by (auto simp: main_orders_def ReadAll_def)

lemma main_orders_ragged:
  "csv_open_err w = None \<Longrightarrow> Fields r1 \<in> set (csv_stream w) \<Longrightarrow> Fields r2 \<in> set (csv_stream w) \<Longrightarrow>
   0 < length r1 \<Longrightarrow> 0 < length r2 \<Longrightarrow> length r1 \<noteq> length r2 \<Longrightarrow>
   \<exists>msg. main_orders w = \<lparr>stdout = [], status = Fatal (''failed to parse a CSV file: '' @ msg)\<rparr>"
  using ReadAll_loop_ragged [of r1 "csv_stream w" r2 0 "csv_wrong_fields w" 0 "[]"]
  by (auto simp: main_orders_def ReadAll_def)

lemma main_orders_uniform_ok:
  assumes "csv_open_err w = None" and "csv_stream w = map Fields rows"
    and "\<forall>r\<in>set rows. length r = k" and "3 \<le> k"
  shows "main_orders w =
     \<lparr>stdout = map (\<lambda>r. show_song \<lparr>title = r ! 0, artist = r ! 1, genre = r ! 2\<rparr>) rows, status = Exited\<rparr>"
proof -
  have ra: "ReadAll (csv_wrong_fields w) (csv_stream w) = (rows, None)"
    using ReadAll_loop_uniform [OF assms(3), of 0 "csv_wrong_fields w" 0 "[]"] assms(2)
    by (simp add: ReadAll_def)
  have "find (\<lambda>row. length row < 3) rows = None"
    using assms(3,4) by (auto simp: find_None_iff)
  then have "songEntries rows = Inr (map (\<lambda>r. \<lparr>title = r ! 0, artist = r ! 1, genre = r ! 2\<rparr>) rows)"
    by (simp add: songEntries_def songEntries_loop_find)
  with ra assms(1) show ?thesis by (simp add: main_orders_def)
qed

lemma main_orders_uniform_short:
  assumes "csv_open_err w = None" and "csv_stream w = map Fields rows" and "rows \<noteq> []"
    and "\<forall>r\<in>set rows. length r = k" and "k < 3"
  shows "main_orders w = \<lparr>stdout = [], status = Panicked (IndexOutOfRange k k)\<rparr>"
proof -
  have ra: "ReadAll (csv_wrong_fields w) (csv_stream w) = (rows, None)"
    using ReadAll_loop_uniform [OF assms(4), of 0 "csv_wrong_fields w" 0 "[]"] assms(2)
    by (simp add: ReadAll_def)
  from assms(3) obtain r rest where rows: "rows = r # rest" by (cases rows) auto
  with assms(4,5) have "length r = k" "length r < 3" by simp_all
  then have "songEntries rows = Inl (IndexOutOfRange k k)"
    using rows by (simp add: songEntries_def songEntries_loop_step_fail del: songEntries_loop.simps)
  with ra assms(1) show ?thesis by (simp add: main_orders_def)
qed

lemma main_orders_not_Exited: "status (main_orders w) \<noteq> Exited \<Longrightarrow> stdout (main_orders w) = []"
  by (auto simp: main_orders_def split: option.splits prod.splits sum.splits)

lemma main_orders_Exited:
  "status (main_orders w) = Exited \<Longrightarrow> length (stdout (main_orders w)) = length (csv_stream w)"
proof -
  assume ex: "status (main_orders w) = Exited"
  then obtain orders songs where ra: "ReadAll (csv_wrong_fields w) (csv_stream w) = (orders, None)"
    and se: "songEntries orders = Inr songs" and out: "stdout (main_orders w) = map show_song songs"
    by (auto simp: main_orders_def split: option.splits prod.splits sum.splits)
  from ra have "length orders = length (csv_stream w)"
    using ReadAll_loop_length [of "csv_wrong_fields w" "csv_stream w" 0 0 "[]" orders]
    by (simp add: ReadAll_def)
  moreover from se have "length songs = length orders" by (rule songEntries_Inr_length)
  ultimately show ?thesis using out by simp
qed

text \<open>\<^verbatim>\<open>main\<close> of \<^verbatim>\<open>astros/main.go\<close> depends on the first chunk of the file only.\<close>

lemma main_astros_first_chunk:
  "main_astros (j\<lparr>json_stream := c # rest\<rparr>) = main_astros (j\<lparr>json_stream := [c]\<rparr>)"
  by (cases c; cases "json_open_err j") (simp_all add: main_astros_def Decode_def)

lemma main_astros_Garbage:
  "json_open_err j = None \<Longrightarrow> json_stream j = Garbage e # rest \<Longrightarrow>
   main_astros j = \<lparr>stdout = [], status = Fatal e\<rparr>"
  by (simp add: main_astros_def Decode_def)

section \<open>Facts about \<^verbatim>\<open>songEntries\<close> on the store\<close>

text \<open>
  \<^verbatim>\<open>append\<close> leaves the first \<^verbatim>\<open>n\<close> arrays of the store alone when the slice it appends
  to is \<^verbatim>\<open>nil\<close> or lives beyond them, and so does the loop.
\<close>

lemma append_song_frame:
  assumes "append_song grow h s v = (h', r)" and "n \<le> length h"
    and "sl_cap s = 0 \<or> n \<le> sl_base s"
  shows "take n h' = take n h" and "length h \<le> length h'"
    and "r = Inr s' \<Longrightarrow> sl_cap s' = 0 \<or> n \<le> sl_base s'"
  using assms
  by (auto simp: append_song_def Let_def split: if_splits option.splits)

lemma songEntries_iter_frame:
  "n \<le> length h \<Longrightarrow> sl_cap songs = 0 \<or> n \<le> sl_base songs \<Longrightarrow>
   take n (fst (songEntries_iter grow d idxs h songs)) = take n h"
proof (induction idxs arbitrary: h songs)
  case Nil
  show ?case by simp
next
  case (Cons i rest)
  show ?case
  proof (cases "load_row h d i")
    case (Inl e)
    then show ?thesis by simp
  next
    case row: (Inr row)
    show ?thesis
    proof (cases "load_str h row 0")
      case (Inl e)
      with row show ?thesis by simp
    next
      case t: (Inr t)
      show ?thesis
      proof (cases "load_str h row 1")
        case (Inl e)
        with row t show ?thesis by simp
      next
        case a: (Inr a)
        show ?thesis
        proof (cases "load_str h row 2")
          case (Inl e)
          with row t a show ?thesis by simp
        next
          case g: (Inr g)
          obtain h' r where ap: "append_song grow h songs \<lparr>title = t, artist = a, genre = g\<rparr> = (h', r)"
            by (cases "append_song grow h songs \<lparr>title = t, artist = a, genre = g\<rparr>")
          note fr = append_song_frame [OF ap Cons.prems(1) Cons.prems(2)]
          show ?thesis
          proof (cases r)
            case (Inl e)
            with row t a g ap fr(1) show ?thesis by simp
          next
            case (Inr songs')
            have "n \<le> length h'" using fr(2) Cons.prems(1) by simp
            moreover have "sl_cap songs' = 0 \<or> n \<le> sl_base songs'" using fr(3) Inr by simp
            ultimately have "take n (fst (songEntries_iter grow d rest h' songs')) = take n h'"
              by (rule Cons.IH)
            with row t a g ap Inr fr(1) show ?thesis by simp
          qed
        qed
      qed
    qed
  qed
qed

lemma songEntries_store_take:
  "take (length h) (fst (songEntries_store grow h data)) = h"
  using songEntries_iter_frame [of "length h" h nil_slice grow data "[0..<sl_len data]"]
  by (simp add: songEntries_store_def nil_slice_def)

lemma extends_nth:
  assumes "take (length h) h' = h" and "a < length h"
  shows "a < length h'" and "h' ! a = h ! a"
proof -
  have "length (take (length h) h') = length h" using assms(1) by simp
  then have "length h \<le> length h'" by simp
  then show "a < length h'" using assms(2) by simp
  have "take (length h) h' ! a = h' ! a" using assms(2) by simp
  then show "h' ! a = h ! a" using assms(1) by simp
qed

lemma extends_str_array:
  "take (length h) h' = h \<Longrightarrow> str_array h a = Some xs \<Longrightarrow> str_array h' a = Some xs"
  using extends_nth [of h h' a] by (auto simp: str_array_def split: if_splits)

lemma extends_slice_array:
  "take (length h) h' = h \<Longrightarrow> slice_array h a = Some xs \<Longrightarrow> slice_array h' a = Some xs"
  using extends_nth [of h h' a] by (auto simp: slice_array_def split: if_splits)

lemma extends_strs_of:
  "take (length h) h' = h \<Longrightarrow> strs_of h r = Some xs \<Longrightarrow> strs_of h' r = Some xs"
  by (auto simp: strs_of_def extends_str_array split: if_splits option.splits)

lemma extends_all_some:
  "take (length h) h' = h \<Longrightarrow> all_some (map (strs_of h) rs) = Some rows \<Longrightarrow>
   all_some (map (strs_of h') rs) = Some rows"
proof (induction rs arbitrary: rows)
  case Nil
  then show ?case by simp
next
  case (Cons r rs)
  from Cons.prems(2) obtain x ys where x: "strs_of h r = Some x"
    and ys: "all_some (map (strs_of h) rs) = Some ys" and rows: "rows = x # ys"
    by (cases "strs_of h r"; cases "all_some (map (strs_of h) rs)") auto
  from Cons.prems(1) x have "strs_of h' r = Some x" by (rule extends_strs_of)
  moreover from Cons.prems(1) ys have "all_some (map (strs_of h') rs) = Some ys" by (rule Cons.IH)
  ultimately show ?case using rows by simp
qed

lemma extends_rows_of:
  "take (length h) h' = h \<Longrightarrow> rows_of h d = Some rows \<Longrightarrow> rows_of h' d = Some rows"
  by (auto simp: rows_of_def extends_slice_array extends_all_some split: if_splits option.splits)

text \<open>The loop on the store computes what the loop on values computes.\<close>

lemma take_Suc_drop_update:
  assumes "off + k < length xs"
  shows "take (Suc k) (drop off (xs[off + k := v])) = take k (drop off xs) @ [v]"
proof -
  have "drop off (xs[off + k := v]) = (drop off xs)[k := v]"
    by (simp add: drop_update_swap)
  moreover have "k < length ((drop off xs)[k := v])" using assms by simp
  ultimately show ?thesis
    by (simp add: take_Suc_conv_app_nth)
qed

lemma songs_inv_songs_of: "songs_inv n h s acc \<Longrightarrow> songs_of h s = Some acc"
  by (auto simp: songs_inv_def songs_of_def split: if_splits option.splits)

lemma append_song_inv:
  assumes "songs_inv n h s acc" and "n \<le> length h"
  shows "\<exists>h' s'. append_song grow h s v = (h', Inr s') \<and> songs_inv n h' s' (acc @ [v])"
proof (cases "sl_len s < sl_cap s")
  case True
  with assms(1) obtain xs where xs: "song_array h (sl_base s) = Some xs"
    and bound: "sl_off s + sl_cap s \<le> length xs"
    and acc: "take (sl_len s) (drop (sl_off s) xs) = acc" and fresh: "n \<le> sl_base s"
    by (auto simp: songs_inv_def split: if_splits option.splits)
  from xs have alloc: "sl_base s < length h"
    by (simp add: song_array_def split: if_splits)
  from True bound have lt: "sl_off s + sl_len s < length xs" by simp
  let ?h' = "h[sl_base s := SongArr (xs[sl_off s + sl_len s := v])]"
  let ?s' = "s\<lparr>sl_len := sl_len s + 1\<rparr>"
  have step: "append_song grow h s v = (?h', Inr ?s')"
    using True xs lt by (simp add: append_song_def)
  have arr: "song_array ?h' (sl_base s) = Some (xs[sl_off s + sl_len s := v])"
    using alloc by (simp add: song_array_def)
  have "take (Suc (sl_len s)) (drop (sl_off s) (xs[sl_off s + sl_len s := v])) = acc @ [v]"
    using take_Suc_drop_update [OF lt] acc by simp
  then have "songs_inv n ?h' ?s' (acc @ [v])"
    using True fresh bound arr by (simp add: songs_inv_def)
  with step show ?thesis by blast
next
  case False
  let ?m = "max (sl_len s + 1) (grow (sl_cap s))"
  have old: "\<exists>xs. (if sl_len s = 0 then Some [] else song_array h (sl_base s)) = Some xs \<and>
      take (sl_len s) (drop (sl_off s) xs) = acc \<and> length acc = sl_len s"
  proof (cases "sl_cap s = 0")
    case True
    with assms(1) show ?thesis by (simp add: songs_inv_def)
  next
    case nz: False
    with assms(1) obtain xs where xs: "song_array h (sl_base s) = Some xs"
      and bound: "sl_off s + sl_cap s \<le> length xs"
      and acc: "take (sl_len s) (drop (sl_off s) xs) = acc" and le: "sl_len s \<le> sl_cap s"
      by (auto simp: songs_inv_def split: if_splits option.splits)
    from le bound have "length (take (sl_len s) (drop (sl_off s) xs)) = sl_len s" by simp
    with acc have "length acc = sl_len s" by simp
    moreover from nz le False have "sl_len s \<noteq> 0" by simp
    ultimately show ?thesis using xs acc by simp
  qed
  then obtain xs where xs: "(if sl_len s = 0 then Some [] else song_array h (sl_base s)) = Some xs"
    and acc: "take (sl_len s) (drop (sl_off s) xs) = acc" and len: "length acc = sl_len s"
    by blast
  let ?arr = "acc @ [v] @ replicate (?m - sl_len s - 1) zero_song"
  let ?h' = "h @ [SongArr ?arr]"
  let ?s' = "\<lparr>sl_base = length h, sl_off = 0, sl_len = sl_len s + 1, sl_cap = ?m\<rparr>"
  have step: "append_song grow h s v = (?h', Inr ?s')"
    using False xs acc len by (simp add: append_song_def Let_def)
  have arr: "song_array ?h' (length h) = Some ?arr"
    by (simp add: song_array_def)
  have "length ?arr = ?m" using len by simp
  moreover have "take (sl_len s + 1) ?arr = acc @ [v]" using len by simp
  ultimately have "songs_inv n ?h' ?s' (acc @ [v])"
    using arr assms(2) by (simp add: songs_inv_def)
  with step show ?thesis by blast
qed

lemma load_str_at_index: "strs_of h row = Some r \<Longrightarrow> load_str h row j = at_index r j"
  by (auto simp: strs_of_def load_str_def at_index_def split: if_splits option.splits)

lemma all_some_nth:
  "all_some xs = Some ys \<Longrightarrow> length ys = length xs \<and> (\<forall>i<length xs. xs ! i = Some (ys ! i))"
proof (induction xs arbitrary: ys)
  case Nil
  then show ?case by simp
next
  case (Cons x xs)
  from Cons.prems obtain y zs where x: "x = Some y" and zs: "all_some xs = Some zs" and ys: "ys = y # zs"
    by (cases x; cases "all_some xs") auto
  from Cons.IH [OF zs] have "length zs = length xs" and "\<forall>i<length xs. xs ! i = Some (zs ! i)"
    by simp_all
  then show ?case using x ys by (auto simp: nth_Cons split: nat.splits)
qed

lemma songEntries_iter_refines:
  assumes rs: "slice_array h0 (sl_base d) = Some rs"
    and bound: "sl_off d + sl_len d \<le> length rs"
    and rows: "all_some (map (strs_of h0) (take (sl_len d) (drop (sl_off d) rs))) = Some rows"
  shows "take (length h0) h = h0 \<Longrightarrow> songs_inv (length h0) h songs acc \<Longrightarrow> k \<le> sl_len d \<Longrightarrow>
         result_matches (songEntries_loop (drop k rows) acc)
           (songEntries_iter grow d [k..<sl_len d] h songs)"
proof (induction "sl_len d - k" arbitrary: k h songs acc)
  case 0
  then have "k = sl_len d" by simp
  moreover have len: "length rows = sl_len d"
    using all_some_nth [OF rows] bound by simp
  ultimately show ?case using "0.prems"(2)
    by (simp add: result_matches_def songs_inv_songs_of)
next
  case (Suc m)
  then have k: "k < sl_len d" by simp
  have len: "length rows = sl_len d"
    using all_some_nth [OF rows] bound by simp
  have idxs: "[k..<sl_len d] = k # [Suc k..<sl_len d]"
    using k by (simp add: upt_conv_Cons)
  have dr: "drop k rows = rows ! k # drop (Suc k) rows"
    using k len by (simp add: Cons_nth_drop_Suc)
  have ext: "take (length h0) h = h0" by (rule Suc.prems(1))
  have le: "length h0 \<le> length h"
  proof -
    have "length (take (length h0) h) = length h0" using ext by simp
    then show ?thesis by simp
  qed
  let ?row = "rs ! (sl_off d + k)"
  have "slice_array h (sl_base d) = Some rs"
    using ext rs by (rule extends_slice_array)
  then have lr: "load_row h d k = Inr ?row"
    using k bound by (simp add: load_row_def)
  have "map (strs_of h0) (take (sl_len d) (drop (sl_off d) rs)) ! k = Some (rows ! k)"
    using all_some_nth [OF rows] k bound by simp
  then have "strs_of h0 ?row = Some (rows ! k)"
    using k bound by simp
  with ext have "strs_of h ?row = Some (rows ! k)" by (rule extends_strs_of)
  then have ls: "load_str h ?row j = at_index (rows ! k) j" for j
    by (rule load_str_at_index)
  show ?case
  proof (cases "at_index (rows ! k) 0")
    case (Inl e)
    then show ?thesis using idxs dr lr ls by (simp add: result_matches_def)
  next
    case t: (Inr t)
    show ?thesis
    proof (cases "at_index (rows ! k) 1")
      case (Inl e)
      then show ?thesis using idxs dr lr ls t by (simp add: result_matches_def)
    next
      case a: (Inr a)
      show ?thesis
      proof (cases "at_index (rows ! k) 2")
        case (Inl e)
        then show ?thesis using idxs dr lr ls t a by (simp add: result_matches_def)
      next
        case g: (Inr g)
        let ?v = "\<lparr>title = t, artist = a, genre = g\<rparr>"
        from append_song_inv [OF Suc.prems(2) le, of grow ?v]
        obtain h' s' where ap: "append_song grow h songs ?v = (h', Inr s')"
          and inv': "songs_inv (length h0) h' s' (acc @ [?v])" by blast
        have fresh: "sl_cap songs = 0 \<or> length h0 \<le> sl_base songs"
          using Suc.prems(2) by (auto simp: songs_inv_def split: if_splits)
        have "take (length h0) h' = take (length h0) h"
          using ap le fresh by (rule append_song_frame(1))
        with ext have ext': "take (length h0) h' = h0" by simp
        have m: "m = sl_len d - Suc k" using Suc.hyps(2) by simp
        have k': "Suc k \<le> sl_len d" using k by simp
        from m ext' inv' k' have "result_matches (songEntries_loop (drop (Suc k) rows) (acc @ [?v]))
           (songEntries_iter grow d [Suc k..<sl_len d] h' s')"
          by (rule Suc.hyps(1))
        then show ?thesis using idxs dr lr ls t a g ap by simp
      qed
    qed
  qed
qed

lemma songEntries_store_refines:
  assumes "rows_of h data = Some rows"
  shows "result_matches (songEntries rows) (songEntries_store grow h data)"
proof (cases "sl_len data = 0")
  case True
  with assms have "rows = []" by (simp add: rows_of_def)
  with True show ?thesis
    by (simp add: result_matches_def songEntries_def songEntries_store_def songs_of_def nil_slice_def)
next
  case False
  with assms obtain rs where rs: "slice_array h (sl_base data) = Some rs"
    and bound: "sl_off data + sl_len data \<le> length rs"
    and rows: "all_some (map (strs_of h) (take (sl_len data) (drop (sl_off data) rs))) = Some rows"
    by (auto simp: rows_of_def split: option.splits if_splits)
  have "songs_inv (length h) h nil_slice []"
    by (simp add: songs_inv_def nil_slice_def)
  with songEntries_iter_refines [OF rs bound rows, of h nil_slice "[]" 0 grow]
  show ?thesis by (simp add: songEntries_def songEntries_store_def)
qed

section \<open>Positional decoding\<close>

text \<open>
  C1, as the claim states it, fails: a row with fewer fields than the three of \<^verbatim>\<open>song\<close>
  does not decode to a song with zeroed trailing fields. On the two-field row
  \<^verbatim>\<open>["China", "Anuel AA"]\<close> the expression \<^verbatim>\<open>row[2]\<close> panics with index 2 out of range for
  length 2, and \<^verbatim>\<open>songEntries\<close> returns nothing.
\<close>

theorem songEntries_short_row_panics:
  "songEntries [[''China'', ''Anuel AA'']] = Inl (IndexOutOfRange 2 2)"
  by (simp add: songEntries_def at_index_def)

text \<open>
  C1, amended: \<^verbatim>\<open>songEntries\<close> succeeds exactly when no row has fewer than 3 fields, and
  then yields, row by row, the song whose title, artist and genre are fields 0, 1 and 2
  of the row (further fields are ignored). Otherwise it panics at the first row with
  fewer than 3 fields, with the index out of range that equals that row's length, and
  no field is zero-filled.
\<close>

theorem songEntries_rows:
  "songEntries data =
     (case find (\<lambda>row. length row < 3) data of
        None \<Rightarrow> Inr (map (\<lambda>row. \<lparr>title = row ! 0, artist = row ! 1, genre = row ! 2\<rparr>) data)
      | Some row \<Rightarrow> Inl (IndexOutOfRange (length row) (length row)))"
  by (simp add: songEntries_def songEntries_loop_find split: option.splits)

section \<open>Number of entities\<close>

text \<open>
  C3: when \<^verbatim>\<open>songEntries\<close> returns, it returns as many songs as it was given rows; a row
  that cannot be decoded (fewer than 3 fields) makes the whole call panic, so that no
  song list is returned at all. For the program: on a file of well-formed records that
  all have the same number of fields, at least 3, \<^verbatim>\<open>main\<close> prints one line per record, in
  the order of the file, and ends normally; a run that ends normally has printed as many
  lines as the file has records; a file that contains a malformed record makes \<^verbatim>\<open>main\<close>
  end in \<^verbatim>\<open>log.Fatalf\<close> with a parse error and nothing printed, and so does a file with two
  records of different numbers of fields; a file of records that all have fewer than 3
  fields makes it panic with nothing printed; and no run that ends otherwise than
  normally has printed anything.
\<close>

theorem entity_count:
  "(songEntries data = Inr songs \<longrightarrow> length songs = length data) \<and>
   (row \<in> set data2 \<and> length row < 3 \<longrightarrow> (\<exists>n. songEntries data2 = Inl (IndexOutOfRange n n))) \<and>
   (csv_open_err w = None \<and> csv_stream w = map Fields rows \<and> (\<forall>r\<in>set rows. length r = k) \<and> 3 \<le> k \<longrightarrow>
      main_orders w =
        \<lparr>stdout = map (\<lambda>r. show_song \<lparr>title = r ! 0, artist = r ! 1, genre = r ! 2\<rparr>) rows,
         status = Exited\<rparr>) \<and>
   (status (main_orders w1) = Exited \<longrightarrow> length (stdout (main_orders w1)) = length (csv_stream w1)) \<and>
   (csv_open_err w2 = None \<and> Malformed m \<in> set (csv_stream w2) \<longrightarrow>
      (\<exists>msg. main_orders w2 = \<lparr>stdout = [], status = Fatal (''failed to parse a CSV file: '' @ msg)\<rparr>)) \<and>
   (csv_open_err w5 = None \<and> Fields r1 \<in> set (csv_stream w5) \<and> Fields r2 \<in> set (csv_stream w5) \<and>
    0 < length r1 \<and> 0 < length r2 \<and> length r1 \<noteq> length r2 \<longrightarrow>
      (\<exists>msg. main_orders w5 = \<lparr>stdout = [], status = Fatal (''failed to parse a CSV file: '' @ msg)\<rparr>)) \<and>
   (csv_open_err w3 = None \<and> csv_stream w3 = map Fields rows3 \<and> rows3 \<noteq> [] \<and>
    (\<forall>r\<in>set rows3. length r = k3) \<and> k3 < 3 \<longrightarrow>
      main_orders w3 = \<lparr>stdout = [], status = Panicked (IndexOutOfRange k3 k3)\<rparr>) \<and>
   (status (main_orders w4) \<noteq> Exited \<longrightarrow> stdout (main_orders w4) = [])"
  using songEntries_Inr_length [of data songs] songEntries_short_Inl [of row data2]
    main_orders_uniform_ok [of w rows k] main_orders_Exited [of w1]
    main_orders_Malformed [of w2 m] main_orders_ragged [of w5 r1 r2]
    main_orders_uniform_short [of w3 rows3 k3] main_orders_not_Exited [of w4]
  by blast

text \<open>
  The files of the witness: two records of three fields; a record followed by a line
  with a stray quote; a record of three fields followed by one of two; two records of
  two fields.
\<close>

theorem entity_count_witness:
  "songEntries [[''a'', ''b'', ''c''], [''x'', ''y'', ''z'']] =
     Inr [\<lparr>title = ''a'', artist = ''b'', genre = ''c''\<rparr>, \<lparr>title = ''x'', artist = ''y'', genre = ''z''\<rparr>] \<and>
   length [\<lparr>title = ''a'', artist = ''b'', genre = ''c''\<rparr>, \<lparr>title = ''x'', artist = ''y'', genre = ''z''\<rparr>] =
     length [[''a'', ''b'', ''c''], [''x'', ''y'', ''z'']] \<and>
   (\<exists>n. songEntries [[''China'', ''Anuel AA''], [''x'', ''y'']] = Inl (IndexOutOfRange n n)) \<and>
   main_orders \<lparr>csv_open_err = None,
       csv_stream = [Fields [''a'', ''b'', ''c''], Fields [''x'', ''y'', ''z'']],
       csv_wrong_fields = (\<lambda>i. ''record on line 2: wrong number of fields'')\<rparr> =
     \<lparr>stdout = [''{title:a artist:b genre:c}'', ''{title:x artist:y genre:z}''], status = Exited\<rparr> \<and>
   length (stdout (main_orders \<lparr>csv_open_err = None,
       csv_stream = [Fields [''a'', ''b'', ''c''], Fields [''x'', ''y'', ''z'']],
       csv_wrong_fields = (\<lambda>i. ''record on line 2: wrong number of fields'')\<rparr>)) = 2 \<and>
   (\<exists>msg. main_orders \<lparr>csv_open_err = None,
       csv_stream = [Fields [''a'', ''b'', ''c''],
                     Malformed (''parse error on line 2, column 2: bare '' @ [CHR 0x22] @ '' in non-quoted-field'')],
       csv_wrong_fields = (\<lambda>i. ''record on line 2: wrong number of fields'')\<rparr> =
     \<lparr>stdout = [], status = Fatal (''failed to parse a CSV file: '' @ msg)\<rparr>) \<and>
   (\<exists>msg. main_orders \<lparr>csv_open_err = None,
       csv_stream = [Fields [''a'', ''b'', ''c''], Fields [''x'', ''y'']],
       csv_wrong_fields = (\<lambda>i. ''record on line 2: wrong number of fields'')\<rparr> =
     \<lparr>stdout = [], status = Fatal (''failed to parse a CSV file: '' @ msg)\<rparr>) \<and>
   main_orders \<lparr>csv_open_err = None,
       csv_stream = [Fields [''China'', ''Anuel AA''], Fields [''x'', ''y'']],
       csv_wrong_fields = (\<lambda>i. ''record on line 2: wrong number of fields'')\<rparr> =
     \<lparr>stdout = [], status = Panicked (IndexOutOfRange 2 2)\<rparr> \<and>
   stdout (main_orders \<lparr>csv_open_err = None,
       csv_stream = [Fields [''China'', ''Anuel AA''], Fields [''x'', ''y'']],
       csv_wrong_fields = (\<lambda>i. ''record on line 2: wrong number of fields'')\<rparr>) = []"
proof -
  let ?txt = "\<lambda>i::nat. ''record on line 2: wrong number of fields''"
  let ?ok = "\<lparr>csv_open_err = None,
       csv_stream = [Fields [''a'', ''b'', ''c''], Fields [''x'', ''y'', ''z'']],
       csv_wrong_fields = ?txt\<rparr>"
  let ?bad = "\<lparr>csv_open_err = None,
       csv_stream = [Fields [''a'', ''b'', ''c''],
                     Malformed (''parse error on line 2, column 2: bare '' @ [CHR 0x22] @ '' in non-quoted-field'')],
       csv_wrong_fields = ?txt\<rparr>"
  let ?ragged = "\<lparr>csv_open_err = None,
       csv_stream = [Fields [''a'', ''b'', ''c''], Fields [''x'', ''y'']],
       csv_wrong_fields = ?txt\<rparr>"
  let ?short = "\<lparr>csv_open_err = None,
       csv_stream = [Fields [''China'', ''Anuel AA''], Fields [''x'', ''y'']],
       csv_wrong_fields = ?txt\<rparr>"
  have a: "songEntries [[''a'', ''b'', ''c''], [''x'', ''y'', ''z'']] =
     Inr [\<lparr>title = ''a'', artist = ''b'', genre = ''c''\<rparr>, \<lparr>title = ''x'', artist = ''y'', genre = ''z''\<rparr>]"
    by (simp add: songEntries_def at_index_def)
  have b: "[''China'', ''Anuel AA''] \<in> set [[''China'', ''Anuel AA''], [''x'', ''y'']] \<and>
      length [''China'', ''Anuel AA''] < 3"
    by simp
  have c: "csv_open_err ?ok = None \<and>
      csv_stream ?ok = map Fields [[''a'', ''b'', ''c''], [''x'', ''y'', ''z'']] \<and>
      (\<forall>r\<in>set [[''a'', ''b'', ''c''], [''x'', ''y'', ''z'']]. length r = 3) \<and> (3::nat) \<le> 3"
    by simp
  have d: "status (main_orders ?ok) = Exited"
    by (simp add: main_orders_def ReadAll_def songEntries_def at_index_def)
  have e: "csv_open_err ?bad = None \<and>
      Malformed (''parse error on line 2, column 2: bare '' @ [CHR 0x22] @ '' in non-quoted-field'')
        \<in> set (csv_stream ?bad)"
    by simp
  have r: "csv_open_err ?ragged = None \<and> Fields [''a'', ''b'', ''c''] \<in> set (csv_stream ?ragged) \<and>
      Fields [''x'', ''y''] \<in> set (csv_stream ?ragged) \<and> 0 < length [''a'', ''b'', ''c''] \<and>
      0 < length [''x'', ''y''] \<and> length [''a'', ''b'', ''c''] \<noteq> length [''x'', ''y'']"
    by simp
  have f: "csv_open_err ?short = None \<and>
      csv_stream ?short = map Fields [[''China'', ''Anuel AA''], [''x'', ''y'']] \<and>
      [[''China'', ''Anuel AA''], [''x'', ''y'']] \<noteq> [] \<and>
      (\<forall>r\<in>set [[''China'', ''Anuel AA''], [''x'', ''y'']]. length r = 2) \<and> (2::nat) < 3"
    by simp
  have g: "status (main_orders ?short) \<noteq> Exited"
    by (simp add: main_orders_def ReadAll_def songEntries_def at_index_def)
  note t = entity_count [where data = "[[''a'', ''b'', ''c''], [''x'', ''y'', ''z'']]"
      and songs = "[\<lparr>title = ''a'', artist = ''b'', genre = ''c''\<rparr>, \<lparr>title = ''x'', artist = ''y'', genre = ''z''\<rparr>]"
      and row = "[''China'', ''Anuel AA'']" and ?data2.0 = "[[''China'', ''Anuel AA''], [''x'', ''y'']]"
      and w = ?ok and rows = "[[''a'', ''b'', ''c''], [''x'', ''y'', ''z'']]" and k = 3
      and ?w1.0 = ?ok and ?w2.0 = ?bad
      and m = "''parse error on line 2, column 2: bare '' @ [CHR 0x22] @ '' in non-quoted-field''"
      and ?w3.0 = ?short and ?rows3.0 = "[[''China'', ''Anuel AA''], [''x'', ''y'']]" and ?k3.0 = 2
      and ?w4.0 = ?short and ?w5.0 = ?ragged and ?r1.0 = "[''a'', ''b'', ''c'']" and ?r2.0 = "[''x'', ''y'']"]
  from t a have 1: "length [\<lparr>title = ''a'', artist = ''b'', genre = ''c''\<rparr>, \<lparr>title = ''x'', artist = ''y'', genre = ''z''\<rparr>] =
     length [[''a'', ''b'', ''c''], [''x'', ''y'', ''z'']]" by blast
  from t b have 2: "\<exists>n. songEntries [[''China'', ''Anuel AA''], [''x'', ''y'']] = Inl (IndexOutOfRange n n)"
    by blast
  from t c have "main_orders ?ok =
      \<lparr>stdout = map (\<lambda>r. show_song \<lparr>title = r ! 0, artist = r ! 1, genre = r ! 2\<rparr>)
         [[''a'', ''b'', ''c''], [''x'', ''y'', ''z'']], status = Exited\<rparr>" by blast
  then have 3: "main_orders ?ok =
      \<lparr>stdout = [''{title:a artist:b genre:c}'', ''{title:x artist:y genre:z}''], status = Exited\<rparr>"
    by (simp add: show_song_def)
  from t d have "length (stdout (main_orders ?ok)) = length (csv_stream ?ok)" by blast
  then have 4: "length (stdout (main_orders ?ok)) = 2" by simp
  from t e have 5: "\<exists>msg. main_orders ?bad =
      \<lparr>stdout = [], status = Fatal (''failed to parse a CSV file: '' @ msg)\<rparr>" by blast
  from t r have 8: "\<exists>msg. main_orders ?ragged =
      \<lparr>stdout = [], status = Fatal (''failed to parse a CSV file: '' @ msg)\<rparr>" by blast
  from t f have 6: "main_orders ?short = \<lparr>stdout = [], status = Panicked (IndexOutOfRange 2 2)\<rparr>"
    by blast
  from t g have 7: "stdout (main_orders ?short) = []" by blast
  from a 1 2 3 4 5 8 6 7 show ?thesis by blast
qed

section \<open>Parse errors\<close>

text \<open>
  C7, as the claim states it, fails for the JSON program: \<^verbatim>\<open>Decode\<close> is called once and
  reads one JSON value. On a file that holds the value \<^verbatim>\<open>null\<close> followed by a truncated
  value, the run does not fail with a parse error: it prints the decoded (empty) value
  and ends normally. No object is decoded on this input.
\<close>

theorem trailing_garbage_not_detected:
  "main_astros \<lparr>json_open_err = None,
       json_stream = [Value JNull, Garbage ''unexpected EOF''],
       json_object = (\<lambda>members v. (v, None))\<rparr> =
     \<lparr>stdout = [''{People:[]}''], status = Exited\<rparr>"
  by (simp add: main_astros_def Decode_def unmarshal_astros_def show_astros_def)

text \<open>
  C7, amended: a CSV file that contains a malformed record, or two records with
  different numbers of fields, makes \<^verbatim>\<open>main\<close> of \<^verbatim>\<open>orders/main.go\<close> end in \<^verbatim>\<open>log.Fatalf\<close> with
  a parse error, and no song is printed, also none of the records before the bad one.
  \<^verbatim>\<open>main\<close> of \<^verbatim>\<open>astros/main.go\<close> ends in \<^verbatim>\<open>log.Fatal\<close> with the syntax error and prints nothing
  when the first value of the file is malformed. What follows the first value is never
  read: the run on a file is the run on its first chunk alone.
\<close>

theorem parse_error_fatal:
  "(csv_open_err w = None \<and> Malformed m \<in> set (csv_stream w) \<longrightarrow>
      (\<exists>msg. main_orders w = \<lparr>stdout = [], status = Fatal (''failed to parse a CSV file: '' @ msg)\<rparr>)) \<and>
   (csv_open_err w2 = None \<and> Fields r1 \<in> set (csv_stream w2) \<and> Fields r2 \<in> set (csv_stream w2) \<and>
    0 < length r1 \<and> 0 < length r2 \<and> length r1 \<noteq> length r2 \<longrightarrow>
      (\<exists>msg. main_orders w2 = \<lparr>stdout = [], status = Fatal (''failed to parse a CSV file: '' @ msg)\<rparr>)) \<and>
   (json_open_err j = None \<and> json_stream j = Garbage e # rest \<longrightarrow>
      main_astros j = \<lparr>stdout = [], status = Fatal e\<rparr>) \<and>
   main_astros (j2\<lparr>json_stream := c # rest2\<rparr>) = main_astros (j2\<lparr>json_stream := [c]\<rparr>)"
  using main_orders_Malformed [of w m] main_orders_ragged [of w2 r1 r2]
    main_astros_Garbage [of j e rest] main_astros_first_chunk [where j = j2 and c = c and rest = rest2]
  by blast

text \<open>
  The files of the witness: a record followed by a line with a stray quote; a record
  of three fields followed by one of two; a truncated JSON value; \<^verbatim>\<open>null\<close> followed by a
  truncated JSON value.
\<close>

theorem parse_error_fatal_witness:
  "(\<exists>msg. main_orders \<lparr>csv_open_err = None,
       csv_stream = [Fields [''a'', ''b'', ''c''],
                     Malformed (''parse error on line 2, column 2: bare '' @ [CHR 0x22] @ '' in non-quoted-field'')],
       csv_wrong_fields = (\<lambda>i. ''record on line 2: wrong number of fields'')\<rparr> =
     \<lparr>stdout = [], status = Fatal (''failed to parse a CSV file: '' @ msg)\<rparr>) \<and>
   (\<exists>msg. main_orders \<lparr>csv_open_err = None,
       csv_stream = [Fields [''a'', ''b'', ''c''], Fields [''x'', ''y'']],
       csv_wrong_fields = (\<lambda>i. ''record on line 2: wrong number of fields'')\<rparr> =
     \<lparr>stdout = [], status = Fatal (''failed to parse a CSV file: '' @ msg)\<rparr>) \<and>
   main_astros \<lparr>json_open_err = None, json_stream = [Garbage ''unexpected EOF''],
       json_object = (\<lambda>members v. (v, None))\<rparr> =
     \<lparr>stdout = [], status = Fatal ''unexpected EOF''\<rparr> \<and>
   main_astros (\<lparr>json_open_err = None, json_stream = [],
       json_object = (\<lambda>members v. (v, None))\<rparr>\<lparr>json_stream := [Value JNull, Garbage ''unexpected EOF'']\<rparr>) =
   main_astros (\<lparr>json_open_err = None, json_stream = [],
       json_object = (\<lambda>members v. (v, None))\<rparr>\<lparr>json_stream := [Value JNull]\<rparr>)"
proof -
  let ?txt = "\<lambda>i::nat. ''record on line 2: wrong number of fields''"
  let ?m = "''parse error on line 2, column 2: bare '' @ [CHR 0x22] @ '' in non-quoted-field''"
  let ?bad = "\<lparr>csv_open_err = None, csv_stream = [Fields [''a'', ''b'', ''c''], Malformed ?m],
       csv_wrong_fields = ?txt\<rparr>"
  let ?ragged = "\<lparr>csv_open_err = None,
       csv_stream = [Fields [''a'', ''b'', ''c''], Fields [''x'', ''y'']],
       csv_wrong_fields = ?txt\<rparr>"
  let ?obj = "\<lambda>(members :: (string \<times> json) list) (v :: astros). (v, None :: string option)"
  let ?g = "\<lparr>json_open_err = None, json_stream = [Garbage ''unexpected EOF''], json_object = ?obj\<rparr>"
  let ?j = "\<lparr>json_open_err = None, json_stream = [], json_object = ?obj\<rparr>"
  have a: "csv_open_err ?bad = None \<and> Malformed ?m \<in> set (csv_stream ?bad)"
    by simp
  have b: "csv_open_err ?ragged = None \<and> Fields [''a'', ''b'', ''c''] \<in> set (csv_stream ?ragged) \<and>
      Fields [''x'', ''y''] \<in> set (csv_stream ?ragged) \<and> 0 < length [''a'', ''b'', ''c''] \<and>
      0 < length [''x'', ''y''] \<and> length [''a'', ''b'', ''c''] \<noteq> length [''x'', ''y'']"
    by simp
  have c: "json_open_err ?g = None \<and> json_stream ?g = Garbage ''unexpected EOF'' # []"
    by simp
  note t = parse_error_fatal [where w = ?bad and m = ?m and ?w2.0 = ?ragged
      and ?r1.0 = "[''a'', ''b'', ''c'']" and ?r2.0 = "[''x'', ''y'']"
      and j = ?g and e = "''unexpected EOF''" and rest = "[]"
      and ?j2.0 = ?j and c = "Value JNull" and ?rest2.0 = "[Garbage ''unexpected EOF'']"]
  from t a have 1: "\<exists>msg. main_orders ?bad =
      \<lparr>stdout = [], status = Fatal (''failed to parse a CSV file: '' @ msg)\<rparr>" by blast
  from t b have 2: "\<exists>msg. main_orders ?ragged =
      \<lparr>stdout = [], status = Fatal (''failed to parse a CSV file: '' @ msg)\<rparr>" by blast
  from t c have 3: "main_astros ?g = \<lparr>stdout = [], status = Fatal ''unexpected EOF''\<rparr>" by blast
  from t have 4: "main_astros (?j\<lparr>json_stream := [Value JNull, Garbage ''unexpected EOF'']\<rparr>) =
      main_astros (?j\<lparr>json_stream := [Value JNull]\<rparr>)" by blast
  from 1 2 3 4 show ?thesis by blast
qed

section \<open>Empty input\<close>



section \<open>The argument of \<^verbatim>\<open>songEntries\<close> is left unchanged\<close>

text \<open>
  C10: whatever the store and the header \<^verbatim>\<open>data\<close>, and whether the call returns or
  panics, every array that existed before the call \<^verbatim>\<open>songEntries(data)\<close> is the same after
  it (the call only adds arrays to the store). So when \<^verbatim>\<open>data\<close> denotes the rows \<^verbatim>\<open>rows\<close>
  before the call, it denotes the same rows after it, and the result is the one
  computed from \<^verbatim>\<open>rows\<close> alone.
\<close>

theorem songEntries_store_frame:
  "take (length h) (fst (songEntries_store grow h data)) = h \<and>
   (rows_of h data = Some rows \<longrightarrow>
      rows_of (fst (songEntries_store grow h data)) data = Some rows \<and>
      result_matches (songEntries rows) (songEntries_store grow h data))"
  using songEntries_store_take [of h grow data]
    extends_rows_of [of h "fst (songEntries_store grow h data)" data rows]
    songEntries_store_refines [of h data rows grow]
  by simp

text \<open>
  The store of the witness holds one array of seven strings and the array of two row
  headers that share it: the rows \<^verbatim>\<open>["a","b","c","d"]\<close> and \<^verbatim>\<open>["x","y","z"]\<close>.
\<close>

theorem songEntries_store_frame_witness:
  "rows_of
     [StrArr [''a'', ''b'', ''c'', ''d'', ''x'', ''y'', ''z''],
      SliceArr [\<lparr>sl_base = 0, sl_off = 0, sl_len = 4, sl_cap = 7\<rparr>,
                \<lparr>sl_base = 0, sl_off = 4, sl_len = 3, sl_cap = 3\<rparr>]]
     \<lparr>sl_base = 1, sl_off = 0, sl_len = 2, sl_cap = 2\<rparr> =
     Some [[''a'', ''b'', ''c'', ''d''], [''x'', ''y'', ''z'']] \<and>
   rows_of
     (fst (songEntries_store (\<lambda>c. 2 * c)
        [StrArr [''a'', ''b'', ''c'', ''d'', ''x'', ''y'', ''z''],
         SliceArr [\<lparr>sl_base = 0, sl_off = 0, sl_len = 4, sl_cap = 7\<rparr>,
                   \<lparr>sl_base = 0, sl_off = 4, sl_len = 3, sl_cap = 3\<rparr>]]
        \<lparr>sl_base = 1, sl_off = 0, sl_len = 2, sl_cap = 2\<rparr>))
     \<lparr>sl_base = 1, sl_off = 0, sl_len = 2, sl_cap = 2\<rparr> =
     Some [[''a'', ''b'', ''c'', ''d''], [''x'', ''y'', ''z'']] \<and>
   result_matches (songEntries [[''a'', ''b'', ''c'', ''d''], [''x'', ''y'', ''z'']])
     (songEntries_store (\<lambda>c. 2 * c)
        [StrArr [''a'', ''b'', ''c'', ''d'', ''x'', ''y'', ''z''],
         SliceArr [\<lparr>sl_base = 0, sl_off = 0, sl_len = 4, sl_cap = 7\<rparr>,
                   \<lparr>sl_base = 0, sl_off = 4, sl_len = 3, sl_cap = 3\<rparr>]]
        \<lparr>sl_base = 1, sl_off = 0, sl_len = 2, sl_cap = 2\<rparr>)"
proof -
  have r: "rows_of
     [StrArr [''a'', ''b'', ''c'', ''d'', ''x'', ''y'', ''z''],
      SliceArr [\<lparr>sl_base = 0, sl_off = 0, sl_len = 4, sl_cap = 7\<rparr>,
                \<lparr>sl_base = 0, sl_off = 4, sl_len = 3, sl_cap = 3\<rparr>]]
     \<lparr>sl_base = 1, sl_off = 0, sl_len = 2, sl_cap = 2\<rparr> =
     Some [[''a'', ''b'', ''c'', ''d''], [''x'', ''y'', ''z'']]"
    by (simp add: rows_of_def slice_array_def strs_of_def str_array_def)
  from r songEntries_store_frame
    [of "[StrArr [''a'', ''b'', ''c'', ''d'', ''x'', ''y'', ''z''],
          SliceArr [\<lparr>sl_base = 0, sl_off = 0, sl_len = 4, sl_cap = 7\<rparr>,
                    \<lparr>sl_base = 0, sl_off = 4, sl_len = 3, sl_cap = 3\<rparr>]]"
        "\<lambda>c. 2 * c" "\<lparr>sl_base = 1, sl_off = 0, sl_len = 2, sl_cap = 2\<rparr>"
        "[[''a'', ''b'', ''c'', ''d''], [''x'', ''y'', ''z'']]"]
  show ?thesis by blast
qed

end
